theory Spec2Isabelle
  imports Complex_Main "HOL-Library.Char_ord" "HOL-Library.List_Lexorder"
begin

section \<open>Kids Weekly Planner: the scheduling core of KidsWeeklyPlanner.tsx\<close>

text \<open>
  The component keeps its events in a list, edits one candidate event at a time, sorts the
  events for display, warns about overlaps, and exports and imports the events as CSV. The
  definitions below follow the TypeScript source function by function.

  Strings are \<^typ>\<open>string\<close>; a \<^typ>\<open>char\<close> stands for one UTF-16 code unit in the range
  U+0000 to U+00FF, so the order on strings (\<open>List_Lexorder\<close> over \<open>Char_ord\<close>) is the order
  JavaScript's \<open><\<close> and \<open>>=\<close> use on strings.
\<close>

subsection \<open>JavaScript numbers\<close>

text \<open>
  The numbers the component computes with are hours, half hours and small products of them.
  They are modelled as exact rationals together with \<open>NaN\<close>; doubles represent every value
  that occurs for a well-formed \<open>HH:MM\<close> time exactly.
\<close>

datatype jsnum = NaN | Fin rat

fun js_sub :: "jsnum \<Rightarrow> jsnum \<Rightarrow> jsnum" where
  "js_sub (Fin a) (Fin b) = Fin (a - b)"
| "js_sub _ _ = NaN"

fun js_add :: "jsnum \<Rightarrow> jsnum \<Rightarrow> jsnum" where
  "js_add (Fin a) (Fin b) = Fin (a + b)"
| "js_add _ _ = NaN"

fun js_mul :: "jsnum \<Rightarrow> jsnum \<Rightarrow> jsnum" where
  "js_mul (Fin a) (Fin b) = Fin (a * b)"
| "js_mul _ _ = NaN"

text \<open>Comparisons with \<open>NaN\<close> are false.\<close>

fun js_lt :: "jsnum \<Rightarrow> jsnum \<Rightarrow> bool" where
  "js_lt (Fin a) (Fin b) = (a < b)"
| "js_lt _ _ = False"

fun js_ge :: "jsnum \<Rightarrow> jsnum \<Rightarrow> bool" where
  "js_ge (Fin a) (Fin b) = (b \<le> a)"
| "js_ge _ _ = False"

text \<open>\<open>Math.max\<close> and \<open>Math.min\<close> of two arguments: \<open>NaN\<close> if either is.\<close>

fun Math_max :: "jsnum \<Rightarrow> jsnum \<Rightarrow> jsnum" where
  "Math_max (Fin a) (Fin b) = Fin (max a b)"
| "Math_max _ _ = NaN"

fun Math_min :: "jsnum \<Rightarrow> jsnum \<Rightarrow> jsnum" where
  "Math_min (Fin a) (Fin b) = Fin (min a b)"
| "Math_min _ _ = NaN"

subsection \<open>JavaScript string operations\<close>

definition dquote :: char where
  "dquote = CHR 0x22"

definition LF :: char where
  "LF = CHR 0x0A"

definition CR :: char where
  "CR = CHR 0x0D"

text \<open>
  White space and line terminators of ECMAScript among the code units below U+0100: TAB, LF,
  VT, FF, CR, SP and NBSP. \<open>trim\<close> strips them from both ends.
\<close>

definition isWhiteSpace :: "char \<Rightarrow> bool" where
  "isWhiteSpace c \<longleftrightarrow> c \<in> set [CHR 0x09, CHR 0x0A, CHR 0x0B, CHR 0x0C, CHR 0x0D, CHR 0x20, CHR 0xA0]"

definition trim :: "string \<Rightarrow> string" where
  "trim s = rev (dropWhile isWhiteSpace (rev (dropWhile isWhiteSpace s)))"

text \<open>\<open>s.replaceAll('"', '')\<close> and \<open>s.replaceAll('"', '""')\<close>.\<close>

definition stripQuotes :: "string \<Rightarrow> string" where
  "stripQuotes s = filter (\<lambda>c. c \<noteq> dquote) s"

definition doubleQuotes :: "string \<Rightarrow> string" where
  "doubleQuotes s = concat (map (\<lambda>c. if c = dquote then [dquote, dquote] else [c]) s)"

text \<open>\<open>s.split(sep)\<close> for a one-character separator; the empty string gives \<open>[""]\<close>.\<close>

fun consHead :: "char \<Rightarrow> string list \<Rightarrow> string list" where
  "consHead c [] = [[c]]"
| "consHead c (l # ls) = (c # l) # ls"

fun split :: "char \<Rightarrow> string \<Rightarrow> string list" where
  "split sep [] = [[]]"
| "split sep (c # cs) = (if c = sep then [] # split sep cs else consHead c (split sep cs))"

text \<open>
  \<open>text.split(/\r?\n/)\<close>: the separator is a line feed together with a carriage return
  directly before it, if there is one.
\<close>

fun splitLines :: "string \<Rightarrow> string list" where
  "splitLines [] = [[]]"
| "splitLines [c] = (if c = LF then [[], []] else [[c]])"
| "splitLines (c # d # cs) =
     (if c = LF then [] # splitLines (d # cs)
      else if c = CR \<and> d = LF then [] # splitLines cs
      else consHead c (splitLines (d # cs)))"

text \<open>\<open>xs.join(sep)\<close>.\<close>

fun join :: "string \<Rightarrow> string list \<Rightarrow> string" where
  "join sep [] = []"
| "join sep [x] = x"
| "join sep (x # y # ys) = x @ sep @ join sep (y # ys)"

text \<open>
  \<open>line.match(/\"([^\"]*)\"|[^,]+/g)\<close>: all matches, left to right. At a double quote
  that has a closing double quote the first alternative matches up to the nearest closing
  quote; otherwise the second alternative takes the longest run without a comma; at a comma
  nothing matches and the search moves one character on. A line with no match gives
  \<open>null\<close>, which the source turns into the empty array.
\<close>

function matchItems :: "string \<Rightarrow> string list" where
  "matchItems [] = []"
| "matchItems (c # cs) =
     (if c = dquote \<and> dquote \<in> set cs
      then (c # takeWhile (\<lambda>x. x \<noteq> dquote) cs @ [dquote])
             # matchItems (tl (dropWhile (\<lambda>x. x \<noteq> dquote) cs))
      else if c = CHR '','' then matchItems cs
      else takeWhile (\<lambda>x. x \<noteq> CHR '','') (c # cs)
             # matchItems (dropWhile (\<lambda>x. x \<noteq> CHR '','') cs))"
  by pat_completeness auto
termination
proof (relation "measure length")
  fix c :: char and cs :: string
  have "length (dropWhile (\<lambda>x. x \<noteq> dquote) cs) \<le> length cs"
    by (rule length_dropWhile_le)
  then show "(tl (dropWhile (\<lambda>x. x \<noteq> dquote) cs), c # cs) \<in> measure length"
    by simp
  have "length (dropWhile (\<lambda>x. x \<noteq> CHR '','') cs) \<le> length cs"
    by (rule length_dropWhile_le)
  then show "(dropWhile (\<lambda>x. x \<noteq> CHR '','') cs, c # cs) \<in> measure length"
    by simp
qed simp_all

text \<open>
  \<open>Number(s)\<close> on the strings a time field splits into: surrounding white space is ignored,
  the empty string is 0, a run of decimal digits is its value. This is what JavaScript
  computes for the empty string and for digit runs below \<open>2^53\<close>, which covers the two-digit
  fields of an \<open>HH:MM\<close> time. For a numeral with a sign, a fraction, an exponent or a radix
  prefix, for \<open>Infinity\<close> and for longer digit runs JavaScript returns a double that this
  function does not compute (it gives \<open>NaN\<close>, or the unrounded value). Every statement below
  about the value of a row is made for well-formed times only; the statements made for all
  strings use no property of this function.
\<close>

definition isDigit :: "char \<Rightarrow> bool" where
  "isDigit c \<longleftrightarrow> CHR ''0'' \<le> c \<and> c \<le> CHR ''9''"

definition digitVal :: "char \<Rightarrow> nat" where
  "digitVal c = of_char c - of_char CHR ''0''"

definition decimal :: "string \<Rightarrow> nat" where
  "decimal s = foldl (\<lambda>n c. 10 * n + digitVal c) 0 s"

definition Number :: "string \<Rightarrow> jsnum" where
  "Number s =
     (let t = trim s
      in if t = [] then Fin 0
         else if list_all isDigit t then Fin (of_nat (decimal t))
         else NaN)"

text \<open>\<open>xs.indexOf(x)\<close>: the first position of \<open>x\<close>, or \<open>-1\<close>.\<close>

fun indexOf :: "'a list \<Rightarrow> 'a \<Rightarrow> int" where
  "indexOf [] x = - 1"
| "indexOf (y # ys) x =
     (if y = x then 0 else (let i = indexOf ys x in if i < 0 then - 1 else i + 1))"

subsection \<open>Events and the time model\<close>

type_synonym Day = string

definition DAYS :: "Day list" where
  "DAYS = [''Monday'', ''Tuesday'', ''Wednesday'', ''Thursday'', ''Friday'', ''Saturday'', ''Sunday'']"

text \<open>
  \<open>type EventItem\<close>: the fields \<open>id\<close>, \<open>end\<close> and \<open>notes\<close> are written \<open>id'\<close>, \<open>end'\<close> and
  \<open>notes'\<close>; \<open>notes\<close> is the one optional property. \<open>day\<close> is a string at run time; the CSV
  import stores whatever the file holds.
\<close>

record EventItem =
  id' :: string
  title :: string
  day :: Day
  start :: string
  end' :: string
  category :: string
  color :: string
  notes' :: "string option"

definition defaultAccent :: string where
  "defaultAccent = ''#2563eb''"

text \<open>
  \<open>timeToRow\<close>: \<open>const [h, m] = time.split(':').map(Number)\<close>. \<open>split\<close> always gives a first
  element; \<open>m\<close> is \<open>undefined\<close> when there is no colon, and \<open>undefined >= 30\<close> is false.
\<close>

definition timeToRow :: "string \<Rightarrow> jsnum" where
  "timeToRow time =
     (case map Number (split CHR '':'' time) of
        [] \<Rightarrow> NaN
      | h # ms \<Rightarrow>
          js_add (js_sub h (Fin 7))
            (Fin (if (case ms of [] \<Rightarrow> False | m # _ \<Rightarrow> js_ge m (Fin 30)) then 1 / 2 else 0)))"

definition overlaps :: "EventItem \<Rightarrow> EventItem \<Rightarrow> bool" where
  "overlaps a b =
     (if day a \<noteq> day b then False
      else (let sa = timeToRow (start a); ea = timeToRow (end' a);
                sb = timeToRow (start b); eb = timeToRow (end' b)
            in js_lt (Math_max sa sb) (Math_min ea eb)))"

text \<open>A time of the form \<open>HH:MM\<close>: two digits, a colon, two digits.\<close>

definition wellFormedTime :: "string \<Rightarrow> bool" where
  "wellFormedTime t =
     (case t of
        [a, b, c, d, e] \<Rightarrow> isDigit a \<and> isDigit b \<and> c = CHR '':'' \<and> isDigit d \<and> isDigit e
      | _ \<Rightarrow> False)"

subsection \<open>The sorted view\<close>

text \<open>
  The comparator of \<open>sortedEvents\<close>, as written in the source: the second \<open>return\<close> subtracts
  the row of \<open>a.start\<close> from itself.
\<close>

definition compareEvents :: "EventItem \<Rightarrow> EventItem \<Rightarrow> jsnum" where
  "compareEvents a b =
     (if day a \<noteq> day b then Fin (of_int (indexOf DAYS (day a) - indexOf DAYS (day b)))
      else js_sub (timeToRow (start a)) (timeToRow (start a)))"

text \<open>
  \<open>Array.prototype.sort\<close> with a comparator is stable and reads a \<open>NaN\<close> result as 0: an
  element moves behind a later one only when the comparator is positive on the pair.
  For a comparator that orders consistently the result is determined by that; it is
  computed here by insertion.
\<close>

fun insertSorted :: "('a \<Rightarrow> 'a \<Rightarrow> jsnum) \<Rightarrow> 'a \<Rightarrow> 'a list \<Rightarrow> 'a list" where
  "insertSorted cmp x [] = [x]"
| "insertSorted cmp x (y # ys) =
     (if js_lt (Fin 0) (cmp x y) then y # insertSorted cmp x ys else x # y # ys)"

definition arraySort :: "('a \<Rightarrow> 'a \<Rightarrow> jsnum) \<Rightarrow> 'a list \<Rightarrow> 'a list" where
  "arraySort cmp xs = foldr (insertSorted cmp) xs []"

definition sortedEvents :: "EventItem list \<Rightarrow> EventItem list" where
  "sortedEvents events = arraySort compareEvents events"

subsection \<open>Geometry of an event block\<close>

definition rowHeight :: rat where
  "rowHeight = 48"

text \<open>
  \<open>top\<close> and \<open>height\<close> of the block rendered for an event; the row height is a parameter, the
  component passes \<^const>\<open>rowHeight\<close>.
\<close>

definition eventTop :: "rat \<Rightarrow> bool \<Rightarrow> EventItem \<Rightarrow> jsnum" where
  "eventTop R denseHours e =
     js_mul (js_mul (timeToRow (start e)) (Fin R)) (Fin (if denseHours then 2 else 1))"

definition eventHeight :: "rat \<Rightarrow> bool \<Rightarrow> EventItem \<Rightarrow> jsnum" where
  "eventHeight R denseHours e =
     js_mul (js_mul (js_sub (timeToRow (end' e)) (timeToRow (start e))) (Fin R))
       (Fin (if denseHours then 2 else 1))"

subsection \<open>The event store: save and delete\<close>

text \<open>The part of the component state the store operations read and write.\<close>

record planner =
  events :: "EventItem list"
  editing :: "EventItem option"
  open' :: bool

datatype alert = Alert string string

text \<open>
  \<open>saveEvent\<close> returns the new state and the alerts it raised. Each early \<open>return\<close> of the
  source is a branch that returns the state as it was.
\<close>

definition saveEvent :: "planner \<Rightarrow> planner \<times> alert list" where
  "saveEvent st =
     (case editing st of
        None \<Rightarrow> (st, [])
      | Some ed \<Rightarrow>
          if trim (title ed) = [] then (st, [Alert ''Error'' ''Please add a title''])
          else if start ed \<ge> end' ed
            then (st, [Alert ''Error'' ''End time must be after start time''])
          else
            (let overlapsWith = list_ex (\<lambda>e. id' e \<noteq> id' ed \<and> overlaps e ed) (events st);
                 prev = events st;
                 next = (case find (\<lambda>e. id' e = id' ed) prev of
                           Some exists \<Rightarrow> map (\<lambda>e. if id' e = id' ed then ed else e) prev
                         | None \<Rightarrow> prev @ [ed])
             in (st\<lparr>events := next, open' := False\<rparr>,
                 if overlapsWith
                 then [Alert ''Warning'' ''This overlaps another event on the same day.'']
                 else [])))"

definition deleteEvent :: "string \<Rightarrow> planner \<Rightarrow> planner" where
  "deleteEvent i st = st\<lparr>events := filter (\<lambda>e. id' e \<noteq> i) (events st)\<rparr>"

subsection \<open>CSV export and import\<close>

definition header :: "string list" where
  "header = [''title'', ''day'', ''start'', ''end'', ''category'', ''color'', ''notes'']"

text \<open>\<open>(e as any)[h]\<close>: the property of an event object with the given name, if it has one.\<close>

definition getProp :: "EventItem \<Rightarrow> string \<Rightarrow> string option" where
  "getProp e h =
     (if h = ''id'' then Some (id' e)
      else if h = ''title'' then Some (title e)
      else if h = ''day'' then Some (day e)
      else if h = ''start'' then Some (start e)
      else if h = ''end'' then Some (end' e)
      else if h = ''category'' then Some (category e)
      else if h = ''color'' then Some (color e)
      else if h = ''notes'' then notes' e
      else None)"

text \<open>\<open>v ?? ''\<close>.\<close>

definition orEmpty :: "string option \<Rightarrow> string" where
  "orEmpty v = (case v of None \<Rightarrow> [] | Some s \<Rightarrow> s)"

text \<open>
  The text \<open>exportCSV\<close> builds (\<open>csv\<close> in the source); on the web platform it is offered as a
  download, elsewhere an alert says that export is not supported. \<open>exportRow\<close> is one element
  of \<open>rows\<close>, \<open>quoteField\<close> wraps a value in double quotes with the quotes inside doubled,
  \<open>csvLine\<close> is the line written for a row.
\<close>

definition exportRow :: "EventItem \<Rightarrow> string list" where
  "exportRow e = map (\<lambda>h. orEmpty (getProp e h)) header"

definition quoteField :: "string \<Rightarrow> string" where
  "quoteField v = dquote # doubleQuotes v @ [dquote]"

definition csvLine :: "string list \<Rightarrow> string" where
  "csvLine r = join '','' (map quoteField r)"

definition exportCSV :: "EventItem list \<Rightarrow> string" where
  "exportCSV evs =
     (let rows = map exportRow evs
      in join [LF] (join '','' header # map csvLine rows))"

text \<open>
  The object the importer builds for one line: \<open>cols.forEach((c, i) => (obj[c] = items[i] ?? ''))\<close>
  and then \<open>obj.id = crypto.randomUUID()\<close>. Assigning a string to \<open>__proto__\<close> creates no
  property.
\<close>

type_synonym obj = "string \<rightharpoonup> string"

definition itemOrEmpty :: "string list \<Rightarrow> nat \<Rightarrow> string" where
  "itemOrEmpty items i = (if i < length items then items ! i else [])"

definition assignColumns :: "string list \<Rightarrow> string list \<Rightarrow> obj" where
  "assignColumns cols items =
     foldl (\<lambda>ob (c, i). if c = ''__proto__'' then ob else ob(c \<mapsto> itemOrEmpty items i))
       Map.empty (zip cols [0..<length cols])"

definition rowObject :: "string list \<Rightarrow> string \<Rightarrow> string \<Rightarrow> obj" where
  "rowObject cols uuid line =
     (assignColumns cols (map stripQuotes (matchItems line)))(''id'' \<mapsto> uuid)"

text \<open>
  \<open>obj as EventItem\<close> is an unchecked cast. The record has a value for it when the object
  has every property the type requires; \<open>notes\<close> may be missing.
\<close>

definition asEventItem :: "obj \<Rightarrow> EventItem option" where
  "asEventItem ob =
     (case (ob ''id'', ob ''title'', ob ''day'', ob ''start'', ob ''end'', ob ''category'', ob ''color'') of
        (Some i, Some t, Some d, Some s, Some e, Some c, Some k) \<Rightarrow>
          Some \<lparr>id' = i, title = t, day = d, start = s, end' = e, category = c, color = k,
                notes' = ob ''notes''\<rparr>
      | _ \<Rightarrow> None)"

text \<open>
  The outcome of an import: the store is replaced by the imported events; or it is replaced
  by objects that are not of type \<open>EventItem\<close> (the header lacks a required column), which
  the record type cannot hold; or the importer threw (there is no header line), the
  \<open>catch\<close> raised the error alert and the store was not written.
\<close>

datatype import_outcome = Replaced "EventItem list" | Untyped "obj list" | Aborted

text \<open>\<open>uuid i\<close> is what the \<open>i\<close>-th call of \<open>crypto.randomUUID()\<close> during the import returns.\<close>

definition importCSVWeb :: "(nat \<Rightarrow> string) \<Rightarrow> string \<Rightarrow> import_outcome \<times> alert" where
  "importCSVWeb uuid text' =
     (case filter (\<lambda>l. l \<noteq> []) (splitLines text') of
        [] \<Rightarrow> (Aborted, Alert ''Error'' ''Failed to import CSV'')
      | h # rest \<Rightarrow>
          (let cols = map (\<lambda>x. trim (stripQuotes x)) (split CHR '','' h);
               out = map (\<lambda>(i, line). rowObject cols (uuid i) line) (zip [0..<length rest] rest)
           in (case those (map asEventItem out) of
                 Some evs \<Rightarrow> Replaced evs
               | None \<Rightarrow> Untyped out,
               Alert ''Imported'' ''Imported events from CSV'')))"

text \<open>The store after an import, where it is a list of events.\<close>

definition eventsAfterImport :: "EventItem list \<Rightarrow> import_outcome \<Rightarrow> EventItem list option" where
  "eventsAfterImport prev oc =
     (case oc of Replaced evs \<Rightarrow> Some evs | Untyped _ \<Rightarrow> None | Aborted \<Rightarrow> Some prev)"

subsection \<open>Loading persisted settings\<close>

datatype js_error = TypeError | SyntaxError | StorageError

datatype json = JNull | JBool bool | JNum rat | JStr string | JArr "json list"
  | JObj "(string \<times> json) list"

text \<open>
  \<open>getLS\<close>. \<open>AsyncStorage.getItem\<close> and \<open>JSON.parse\<close> are parameters: \<open>readItem key\<close> is the
  stored text, \<open>None\<close> for a missing entry, or the error the read rejects with; \<open>parse raw\<close>
  is the parsed value or the error thrown. The \<open>try\<close> block computes a value or an error,
  the \<open>catch\<close> turns every error into the fallback. An empty stored text is falsy.
\<close>

definition getLS ::
  "(string \<Rightarrow> js_error + string option) \<Rightarrow> (string \<Rightarrow> js_error + 'a) \<Rightarrow> string \<Rightarrow> 'a
     \<Rightarrow> js_error + 'a" where
  "getLS readItem parse key fallback =
     (case (case readItem key of
              Inl err \<Rightarrow> Inl err
            | Inr None \<Rightarrow> Inr fallback
            | Inr (Some raw) \<Rightarrow> if raw = [] then Inr fallback else parse raw)
      of Inl err \<Rightarrow> Inr fallback
       | Inr v \<Rightarrow> Inr v)"

text \<open>
  The keys the start-up effect loads, each with its hardcoded default, in the order it loads
  them. The default of a key is also the initial state of its setting (\<open>useState\<close>).
\<close>

definition persisted :: "(string \<times> json) list" where
  "persisted =
     [(''kwp:title'', JStr ''Kids Weekly Planner''),
      (''kwp:bgColor'', JStr ''#f8fafc''),
      (''kwp:accent'', JStr defaultAccent),
      (''kwp:photo'', JNull),
      (''kwp:events'', JArr []),
      (''kwp:dense'', JBool False)]"

text \<open>
  The storage behind \<open>AsyncStorage\<close>: a map from keys to texts, on which requests take effect
  in the order they are issued. \<open>getItem\<close> and \<open>setItem\<close> are the requests on a storage
  that serves them; \<open>setLS\<close> swallows the error of a write that fails. \<open>JSON.stringify\<close> is the
  parameter \<open>stringify\<close>.
\<close>

type_synonym storage = "string \<rightharpoonup> string"

definition getItem :: "storage \<Rightarrow> string \<Rightarrow> js_error + string option" where
  "getItem st key = Inr (st key)"

definition setItem :: "storage \<Rightarrow> string \<Rightarrow> string \<Rightarrow> js_error + storage" where
  "setItem st key v = Inr (st(key \<mapsto> v))"

definition setLS :: "(json \<Rightarrow> string) \<Rightarrow> storage \<Rightarrow> string \<Rightarrow> json \<Rightarrow> storage" where
  "setLS stringify st key val =
     (case setItem st key (stringify val) of Inl err \<Rightarrow> st | Inr st' \<Rightarrow> st')"

text \<open>
  The effects of the first render, in the order the component declares them. The start-up
  effect comes first: it calls \<open>getLS('kwp:title', ...)\<close>, which issues its read and waits.
  In the same flush the six persistence effects run, \<open>setLS('kwp:title', title)\<close> to
  \<open>setLS('kwp:dense', denseHours)\<close>, each with the initial state of its setting, which is
  the default of \<^const>\<open>persisted\<close>. The start-up effect issues the read of the next key only
  after the read before it has resolved, so the other five reads come after the six writes.
  A loaded value is written back under its own key, after that key was read.
  \<open>hydrate\<close> is the list of the six values the start-up effect loads.
\<close>

definition firstRenderWrites :: "(json \<Rightarrow> string) \<Rightarrow> storage \<Rightarrow> storage" where
  "firstRenderWrites stringify st =
     foldl (\<lambda>s (key, val). setLS stringify s key val) st persisted"

definition hydrate ::
  "(string \<Rightarrow> js_error + json) \<Rightarrow> (json \<Rightarrow> string) \<Rightarrow> storage \<Rightarrow> (js_error + json) list" where
  "hydrate parse stringify st =
     (case persisted of
        [] \<Rightarrow> []
      | (key, fallback) # rest \<Rightarrow>
          getLS (getItem st) parse key fallback
          # map (\<lambda>(key, fallback).
                  getLS (getItem (firstRenderWrites stringify st)) parse key fallback) rest)"

subsection \<open>Sample data\<close>

text \<open>An event with the category, colour and notes that \<open>resetForm\<close> fills in.\<close>

definition sampleEvent :: "string \<Rightarrow> string \<Rightarrow> Day \<Rightarrow> string \<Rightarrow> string \<Rightarrow> EventItem" where
  "sampleEvent i t d s e =
     \<lparr>id' = i, title = t, day = d, start = s, end' = e, category = ''School'',
      color = defaultAccent, notes' = Some []\<rparr>"

definition sampleStore :: "EventItem list" where
  "sampleStore =
     [sampleEvent ''1'' ''Piano'' ''Monday'' ''09:00'' ''10:30'',
      sampleEvent ''2'' ''Football'' ''Tuesday'' ''10:00'' ''11:00'']"

text \<open>A store of five events.\<close>

definition sampleWeek :: "EventItem list" where
  "sampleWeek =
     [sampleEvent ''1'' ''Piano'' ''Monday'' ''09:00'' ''10:30'',
      sampleEvent ''2'' ''Football'' ''Tuesday'' ''10:00'' ''11:00'',
      sampleEvent ''3'' ''School'' ''Wednesday'' ''08:00'' ''13:00'',
      sampleEvent ''4'' ''Homework'' ''Thursday'' ''16:00'' ''17:00'',
      sampleEvent ''5'' ''Snack'' ''Thursday'' ''16:30'' ''17:00'']"

text \<open>An event with notes of two lines, and an event with a quoted word in its title.\<close>

definition sampleMultiline :: EventItem where
  "sampleMultiline =
     (sampleEvent ''1'' ''Swimming'' ''Friday'' ''15:00'' ''16:00'')
       \<lparr>notes' := Some (''bring towel'' @ [LF] @ ''and goggles'')\<rparr>"

definition sampleQuoted :: EventItem where
  "sampleQuoted =
     sampleEvent ''1'' (''Read '' @ [dquote] @ ''Momo'' @ [dquote]) ''Friday'' ''15:00'' ''16:00''"

text \<open>A generator of identifiers that never repeats one.\<close>

definition sampleUuid :: "nat \<Rightarrow> string" where
  "sampleUuid n = ''uuid-'' @ replicate n CHR ''x''"

text \<open>A CSV file with its columns in another order than the export writes them, and two rows.\<close>

definition sampleCSV :: string where
  "sampleCSV =
     ''day,title,start,end,color,category'' @ [CR, LF]
     @ ''Friday,'' @ [dquote] @ ''Swim, then lunch'' @ [dquote] @ '',15:00,16:30,#22c55e,Sport''
     @ [CR, LF]
     @ ''Sunday,Rest,07:00,08:00,#ef4444,Rest'' @ [LF]"

text \<open>
  A CSV file in the column order of the export, with two rows; the second row has an empty
  cell for the category.
\<close>

definition sampleEmptyCell :: string where
  "sampleEmptyCell =
     ''title,day,start,end,category,color,notes'' @ [LF]
     @ ''Piano,Monday,09:00,10:00,Music,#2563eb,bring notes'' @ [LF]
     @ ''Walk,Tuesday,09:00,10:00,,#22c55e,with Grandpa''"

text \<open>
  \<open>JSON.stringify\<close> and \<open>JSON.parse\<close> on the values and texts used below: \<open>null\<close>, the
  booleans, the empty array, and strings without a double quote or a backslash.
\<close>

fun sampleStringify :: "json \<Rightarrow> string" where
  "sampleStringify JNull = ''null''"
| "sampleStringify (JBool b) = (if b then ''true'' else ''false'')"
| "sampleStringify (JStr s) = dquote # s @ [dquote]"
| "sampleStringify (JArr xs) = ''[]''"
| "sampleStringify (JNum n) = ''0''"
| "sampleStringify (JObj kvs) = ''{}''"

definition sampleParse :: "string \<Rightarrow> js_error + json" where
  "sampleParse raw =
     (if raw = ''null'' then Inr JNull
      else if raw = ''true'' then Inr (JBool True)
      else if raw = ''false'' then Inr (JBool False)
      else if raw = ''[]'' then Inr (JArr [])
      else if 2 \<le> length raw \<and> hd raw = dquote \<and> last raw = dquote
              \<and> list_all (\<lambda>c. c \<noteq> dquote \<and> c \<noteq> CHR 0x5C) (butlast (tl raw))
        then Inr (JStr (butlast (tl raw)))
      else Inl SyntaxError)"

text \<open>
  What an earlier session left in the storage: a title, the red accent and half-hour rows
  switched on.
\<close>

definition sampleStorage :: storage where
  "sampleStorage =
     [''kwp:title'' \<mapsto> dquote # ''Our week'' @ [dquote],
      ''kwp:accent'' \<mapsto> dquote # ''#ef4444'' @ [dquote],
      ''kwp:dense'' \<mapsto> ''true'']"

section \<open>Properties\<close>

subsection \<open>Time model and overlap\<close>

lemma isDigit_not_colon: "isDigit c \<Longrightarrow> c \<noteq> CHR '':''"
  by (auto simp: isDigit_def less_eq_char_def)

lemma isDigit_not_space: "isDigit c \<Longrightarrow> \<not> isWhiteSpace c"
  by (auto simp: isDigit_def isWhiteSpace_def less_eq_char_def)

lemma Number_two_digits:
  assumes "isDigit a" "isDigit b"
  shows "Number [a, b] = Fin (of_nat (10 * digitVal a + digitVal b))"
  using assms by (simp add: Number_def trim_def isDigit_not_space decimal_def)

text \<open>
  On a well-formed time the row is the hour minus 7, plus one half when the minutes are 30
  or more.
\<close>

lemma timeToRow_wellFormed:
  assumes "wellFormedTime t"
  shows "\<exists>a b d e. t = [a, b, CHR '':'', d, e] \<and>
           timeToRow t = Fin (of_nat (10 * digitVal a + digitVal b) - 7
             + (if 30 \<le> 10 * digitVal d + digitVal e then 1 / 2 else 0))"
proof -
  from assms obtain a b d e where t: "t = [a, b, CHR '':'', d, e]"
    and dig: "isDigit a" "isDigit b" "isDigit d" "isDigit e"
    by (auto simp: wellFormedTime_def split: list.splits)
  have sp: "split CHR '':'' t = [[a, b], [d, e]]"
    using dig by (simp add: t isDigit_not_colon)
  show ?thesis
    using dig by (auto simp: t timeToRow_def sp Number_two_digits isDigit_not_colon)
qed

lemma timeToRow_Fin: "wellFormedTime t \<Longrightarrow> \<exists>r. timeToRow t = Fin r"
  using timeToRow_wellFormed by blast

lemma timeToRow_0900: "timeToRow ''09:00'' = Fin 2"
  by code_simp

lemma timeToRow_1000: "timeToRow ''10:00'' = Fin 3"
  by code_simp

lemma timeToRow_1030: "timeToRow ''10:30'' = Fin (7 / 2)"
  by code_simp

lemma timeToRow_1100: "timeToRow ''11:00'' = Fin 4"
  by code_simp

lemma wellFormed_samples:
  "wellFormedTime ''09:00''" "wellFormedTime ''10:00''" "wellFormedTime ''10:30''"
  "wellFormedTime ''11:00''"
  by (simp_all add: wellFormedTime_def isDigit_def less_eq_char_def)

lemma intervals_intersect:
  fixes sa ea sb eb :: rat
  shows "(max sa sb < min ea eb) = (\<exists>x. sa \<le> x \<and> x < ea \<and> sb \<le> x \<and> x < eb)"
proof
  assume "max sa sb < min ea eb"
  then have "sa \<le> max sa sb \<and> max sa sb < ea \<and> sb \<le> max sa sb \<and> max sa sb < eb"
    by simp
  then show "\<exists>x. sa \<le> x \<and> x < ea \<and> sb \<le> x \<and> x < eb" ..
next
  assume "\<exists>x. sa \<le> x \<and> x < ea \<and> sb \<le> x \<and> x < eb"
  then show "max sa sb < min ea eb" by auto
qed

text \<open>
  C5: for events whose four time strings are well-formed \<open>HH:MM\<close> values, every row is a
  number, and \<open>overlaps a b\<close> holds exactly when the days are equal (so it is false whenever the
  days differ, whatever the times) and the larger start row is below the smaller end row; that
  is the case exactly when some row lies in both half-open intervals.
\<close>

theorem overlaps_wellFormed:
  assumes "wellFormedTime (start a)" and "wellFormedTime (end' a)"
    and "wellFormedTime (start b)" and "wellFormedTime (end' b)"
  shows "\<exists>sa ea sb eb.
           timeToRow (start a) = Fin sa \<and> timeToRow (end' a) = Fin ea \<and>
           timeToRow (start b) = Fin sb \<and> timeToRow (end' b) = Fin eb \<and>
           overlaps a b = (day a = day b \<and> max sa sb < min ea eb) \<and>
           (max sa sb < min ea eb) = (\<exists>x. sa \<le> x \<and> x < ea \<and> sb \<le> x \<and> x < eb)"
proof -
  obtain sa ea sb eb where rows: "timeToRow (start a) = Fin sa" "timeToRow (end' a) = Fin ea"
    "timeToRow (start b) = Fin sb" "timeToRow (end' b) = Fin eb"
    using assms timeToRow_Fin by metis
  have "overlaps a b = (day a = day b \<and> max sa sb < min ea eb)"
    by (simp add: overlaps_def rows)
  with rows intervals_intersect [of sa sb ea eb] show ?thesis by blast
qed

theorem overlaps_wellFormed_witness:
  "wellFormedTime ''09:00'' \<and> wellFormedTime ''10:30'' \<and> wellFormedTime ''10:00'' \<and>
   wellFormedTime ''11:00'' \<and>
   overlaps (sampleEvent ''1'' ''Piano'' ''Monday'' ''09:00'' ''10:30'')
            (sampleEvent ''2'' ''Football'' ''Monday'' ''10:00'' ''11:00'') \<and>
   \<not> overlaps (sampleEvent ''1'' ''Piano'' ''Monday'' ''09:00'' ''10:30'')
              (sampleEvent ''2'' ''Football'' ''Tuesday'' ''10:00'' ''11:00'')"
proof -
  let ?a = "sampleEvent ''1'' ''Piano'' ''Monday'' ''09:00'' ''10:30''"
  let ?b = "sampleEvent ''2'' ''Football'' ''Monday'' ''10:00'' ''11:00''"
  let ?c = "sampleEvent ''2'' ''Football'' ''Tuesday'' ''10:00'' ''11:00''"
  have wa: "wellFormedTime (start ?a)" "wellFormedTime (end' ?a)"
    and wb: "wellFormedTime (start ?b)" "wellFormedTime (end' ?b)"
    and wc: "wellFormedTime (start ?c)" "wellFormedTime (end' ?c)"
    by (simp_all add: sampleEvent_def wellFormed_samples)
  have "overlaps ?a ?b"
    using overlaps_wellFormed [OF wa wb]
    by (auto simp: sampleEvent_def timeToRow_0900 timeToRow_1000 timeToRow_1030 timeToRow_1100)
  moreover have "\<not> overlaps ?a ?c"
    using overlaps_wellFormed [OF wa wc]
    by (auto simp: sampleEvent_def)
  ultimately show ?thesis by (simp add: wellFormed_samples)
qed

lemma Math_max_commute: "Math_max a b = Math_max b a"
  by (cases a; cases b) (simp_all add: max.commute)

lemma Math_min_commute: "Math_min a b = Math_min b a"
  by (cases a; cases b) (simp_all add: min.commute)

text \<open>
  C6: \<open>overlaps\<close> is symmetric, for all events, whatever their time strings are.
\<close>

theorem overlaps_symmetric: "overlaps a b = overlaps b a"
  by (simp add: overlaps_def Let_def Math_max_commute [of "timeToRow (start a)"]
      Math_min_commute [of "timeToRow (end' a)"])

theorem overlaps_symmetric_witness:
  "overlaps (sampleEvent ''2'' ''Football'' ''Monday'' ''10:00'' ''11:00'')
            (sampleEvent ''1'' ''Piano'' ''Monday'' ''09:00'' ''10:30'')"
proof -
  have "overlaps (sampleEvent ''1'' ''Piano'' ''Monday'' ''09:00'' ''10:30'')
                 (sampleEvent ''2'' ''Football'' ''Monday'' ''10:00'' ''11:00'')"
    by (simp add: overlaps_def sampleEvent_def timeToRow_0900 timeToRow_1000 timeToRow_1030
        timeToRow_1100)
  then show ?thesis
    using overlaps_symmetric
      [of "sampleEvent ''1'' ''Piano'' ''Monday'' ''09:00'' ''10:30''"
          "sampleEvent ''2'' ''Football'' ''Monday'' ''10:00'' ''11:00''"]
    by simp
qed

subsection \<open>Geometry\<close>

text \<open>
  C7: for an event with well-formed \<open>HH:MM\<close> times, a row height \<open>R\<close> and the density
  multiplier \<open>D\<close> (2 in half-hour mode, 1 otherwise), the offset of the rendered block is the
  start row times \<open>R\<close> times \<open>D\<close>, and its height is the difference of end row and start row
  times \<open>R\<close> times \<open>D\<close>. The witness is the event 09:00 to 10:30 with the component's row
  height 48 in hourly mode: offset 96, height 72.
\<close>

theorem eventGeometry:
  assumes "wellFormedTime (start e)" and "wellFormedTime (end' e)"
  shows "\<exists>rs re.
           timeToRow (start e) = Fin rs \<and> timeToRow (end' e) = Fin re \<and>
           eventTop R denseHours e = Fin (rs * R * (if denseHours then 2 else 1)) \<and>
           eventHeight R denseHours e = Fin ((re - rs) * R * (if denseHours then 2 else 1))"
proof -
  obtain rs re where rows: "timeToRow (start e) = Fin rs" "timeToRow (end' e) = Fin re"
    using assms timeToRow_Fin by metis
  then show ?thesis by (simp add: eventTop_def eventHeight_def)
qed

theorem eventGeometry_witness:
  "wellFormedTime ''09:00'' \<and> wellFormedTime ''10:30'' \<and>
   eventTop rowHeight False (sampleEvent ''1'' ''Piano'' ''Monday'' ''09:00'' ''10:30'') = Fin 96 \<and>
   eventHeight rowHeight False (sampleEvent ''1'' ''Piano'' ''Monday'' ''09:00'' ''10:30'') = Fin 72"
proof -
  let ?e = "sampleEvent ''1'' ''Piano'' ''Monday'' ''09:00'' ''10:30''"
  have w: "wellFormedTime (start ?e)" "wellFormedTime (end' ?e)"
    by (simp_all add: sampleEvent_def wellFormed_samples)
  show ?thesis
    using eventGeometry [OF w, of rowHeight False]
    by (auto simp: sampleEvent_def timeToRow_0900 timeToRow_1030 rowHeight_def wellFormed_samples)
qed

subsection \<open>The sorted view\<close>

text \<open>Two events of the same day are never exchanged: the comparator is 0 or \<open>NaN\<close> on them.\<close>

lemma compareEvents_same_day: "day a = day b \<Longrightarrow> \<not> js_lt (Fin 0) (compareEvents a b)"
  by (cases "timeToRow (start a)") (simp_all add: compareEvents_def)

text \<open>
  C1: the sorted view orders by weekday and then by start row. On the events (Wednesday 10:00),
  (Monday 09:00), (Monday 08:00) the source's sort gives (Monday 09:00), (Monday 08:00),
  (Wednesday 10:00): the two Monday events keep their insertion order, the start row is not
  compared.
\<close>

theorem sortedEvents_example:
  "sortedEvents
     [sampleEvent ''1'' ''Swimming'' ''Wednesday'' ''10:00'' ''11:00'',
      sampleEvent ''2'' ''School'' ''Monday'' ''09:00'' ''10:00'',
      sampleEvent ''3'' ''Breakfast'' ''Monday'' ''08:00'' ''09:00'']
   = [sampleEvent ''2'' ''School'' ''Monday'' ''09:00'' ''10:00'',
      sampleEvent ''3'' ''Breakfast'' ''Monday'' ''08:00'' ''09:00'',
      sampleEvent ''1'' ''Swimming'' ''Wednesday'' ''10:00'' ''11:00'']"
  by code_simp

subsection \<open>Saving and deleting\<close>

lemma find_None_iff_ids: "(find (\<lambda>e. id' e = i) xs = None) = (\<not> (\<exists>e\<in>set xs. id' e = i))"
  by (auto simp: find_None_iff)

lemma saveEvent_valid:
  assumes "editing st = Some ed" and "trim (title ed) \<noteq> []" and "start ed < end' ed"
  shows "saveEvent st =
           (st\<lparr>events :=
                 (if \<exists>e\<in>set (events st). id' e = id' ed
                  then map (\<lambda>e. if id' e = id' ed then ed else e) (events st)
                  else events st @ [ed]),
               open' := False\<rparr>,
            if \<exists>e\<in>set (events st). id' e \<noteq> id' ed \<and> overlaps e ed
            then [Alert ''Warning'' ''This overlaps another event on the same day.'']
            else [])"
proof (cases "find (\<lambda>e. id' e = id' ed) (events st)")
  case None
  then have "\<not> (\<exists>e\<in>set (events st). id' e = id' ed)"
    using find_None_iff_ids [of "id' ed" "events st"] by simp
  with None assms show ?thesis
    by (simp add: saveEvent_def Let_def list_ex_iff not_le)
next
  case (Some x)
  then have "\<exists>e\<in>set (events st). id' e = id' ed"
    using find_None_iff_ids [of "id' ed" "events st"] by simp
  with Some assms show ?thesis
    by (simp add: saveEvent_def Let_def list_ex_iff not_le)
qed

lemma saveEvent_invalid:
  assumes "editing st = Some ed" and "\<not> (trim (title ed) \<noteq> [] \<and> start ed < end' ed)"
  shows "saveEvent st =
           (st, [Alert ''Error''
                  (if trim (title ed) = [] then ''Please add a title''
                   else ''End time must be after start time'')])"
  using assms by (auto simp: saveEvent_def not_less)

text \<open>
  C3: with a candidate in the editor, \<open>saveEvent\<close> commits exactly when the trimmed title
  is not empty and \<open>start\<close> is below \<open>end'\<close> in the order of strings. A commit replaces the
  stored events that have the candidate's id, or appends the candidate when there is none,
  closes the editor, and raises the overlap warning, and nothing else, when another stored event
  overlaps the candidate. When a check fails the state is returned as it was and one error
  alert is raised.
\<close>

theorem saveEvent_validation:
  assumes "editing st = Some ed"
  shows "(trim (title ed) \<noteq> [] \<and> start ed < end' ed \<longrightarrow>
            saveEvent st =
              (st\<lparr>events :=
                    (if \<exists>e\<in>set (events st). id' e = id' ed
                     then map (\<lambda>e. if id' e = id' ed then ed else e) (events st)
                     else events st @ [ed]),
                  open' := False\<rparr>,
               if \<exists>e\<in>set (events st). id' e \<noteq> id' ed \<and> overlaps e ed
               then [Alert ''Warning'' ''This overlaps another event on the same day.'']
               else [])) \<and>
         (\<not> (trim (title ed) \<noteq> [] \<and> start ed < end' ed) \<longrightarrow>
            fst (saveEvent st) = st \<and> (\<exists>msg. snd (saveEvent st) = [Alert ''Error'' msg]))"
  using saveEvent_valid [OF assms] saveEvent_invalid [OF assms] by simp

lemma trim_Piano: "trim ''Piano lesson'' = ''Piano lesson''" "trim ''   '' = []"
  by code_simp+

theorem saveEvent_validation_witness:
  "saveEvent \<lparr>events = sampleStore,
              editing = Some (sampleEvent ''3'' ''Piano lesson'' ''Monday'' ''10:00'' ''11:00''),
              open' = True\<rparr>
   = (\<lparr>events = sampleStore @ [sampleEvent ''3'' ''Piano lesson'' ''Monday'' ''10:00'' ''11:00''],
       editing = Some (sampleEvent ''3'' ''Piano lesson'' ''Monday'' ''10:00'' ''11:00''),
       open' = False\<rparr>,
      [Alert ''Warning'' ''This overlaps another event on the same day.'']) \<and>
   fst (saveEvent \<lparr>events = sampleStore,
              editing = Some (sampleEvent ''3'' ''   '' ''Monday'' ''10:00'' ''11:00''),
              open' = True\<rparr>)
   = \<lparr>events = sampleStore,
      editing = Some (sampleEvent ''3'' ''   '' ''Monday'' ''10:00'' ''11:00''),
      open' = True\<rparr> \<and>
   fst (saveEvent \<lparr>events = sampleStore,
              editing = Some (sampleEvent ''3'' ''Piano lesson'' ''Monday'' ''10:00'' ''09:00''),
              open' = True\<rparr>)
   = \<lparr>events = sampleStore,
      editing = Some (sampleEvent ''3'' ''Piano lesson'' ''Monday'' ''10:00'' ''09:00''),
      open' = True\<rparr>"
proof -
  let ?ok = "sampleEvent ''3'' ''Piano lesson'' ''Monday'' ''10:00'' ''11:00''"
  let ?blank = "sampleEvent ''3'' ''   '' ''Monday'' ''10:00'' ''11:00''"
  let ?rev = "sampleEvent ''3'' ''Piano lesson'' ''Monday'' ''10:00'' ''09:00''"
  have ov: "overlaps (sampleEvent ''1'' ''Piano'' ''Monday'' ''09:00'' ''10:30'') ?ok"
    by (simp add: overlaps_def sampleEvent_def timeToRow_0900 timeToRow_1000 timeToRow_1030
        timeToRow_1100)
  have 1: "saveEvent \<lparr>events = sampleStore, editing = Some ?ok, open' = True\<rparr>
           = (\<lparr>events = sampleStore @ [?ok], editing = Some ?ok, open' = False\<rparr>,
              [Alert ''Warning'' ''This overlaps another event on the same day.''])"
    using saveEvent_validation [of "\<lparr>events = sampleStore, editing = Some ?ok, open' = True\<rparr>" ?ok] ov
    by (simp add: sampleStore_def sampleEvent_def trim_Piano)
  have 2: "fst (saveEvent \<lparr>events = sampleStore, editing = Some ?blank, open' = True\<rparr>)
           = \<lparr>events = sampleStore, editing = Some ?blank, open' = True\<rparr>"
    using saveEvent_validation [of "\<lparr>events = sampleStore, editing = Some ?blank, open' = True\<rparr>" ?blank]
    by (simp add: sampleEvent_def trim_Piano)
  have 3: "fst (saveEvent \<lparr>events = sampleStore, editing = Some ?rev, open' = True\<rparr>)
           = \<lparr>events = sampleStore, editing = Some ?rev, open' = True\<rparr>"
    using saveEvent_validation [of "\<lparr>events = sampleStore, editing = Some ?rev, open' = True\<rparr>" ?rev]
    by (simp add: sampleEvent_def trim_Piano)
  from 1 2 3 show ?thesis by simp
qed

text \<open>
  C10: when a valid candidate's id is in the store, saving keeps the length of the store, every
  position holds the candidate if the event there had the candidate's id and the event that
  was there otherwise, and the ids are in the same order as before.
\<close>

theorem saveEvent_replaces_in_place:
  assumes "editing st = Some ed" and "trim (title ed) \<noteq> []" and "start ed < end' ed"
    and "\<exists>e\<in>set (events st). id' e = id' ed"
  shows "length (events (fst (saveEvent st))) = length (events st) \<and>
         (\<forall>i<length (events st).
            events (fst (saveEvent st)) ! i
              = (if id' (events st ! i) = id' ed then ed else events st ! i)) \<and>
         map id' (events (fst (saveEvent st))) = map id' (events st)"
  using assms(4) by (simp add: saveEvent_valid [OF assms(1-3)] comp_def cong: map_cong)

lemma trim_Football: "trim ''Football match'' = ''Football match''"
  by code_simp

theorem saveEvent_replaces_in_place_witness:
  "length (events (fst (saveEvent \<lparr>events = sampleStore,
       editing = Some (sampleEvent ''2'' ''Football match'' ''Tuesday'' ''10:00'' ''11:00''),
       open' = True\<rparr>))) = 2 \<and>
   events (fst (saveEvent \<lparr>events = sampleStore,
       editing = Some (sampleEvent ''2'' ''Football match'' ''Tuesday'' ''10:00'' ''11:00''),
       open' = True\<rparr>)) ! 0 = sampleEvent ''1'' ''Piano'' ''Monday'' ''09:00'' ''10:30'' \<and>
   events (fst (saveEvent \<lparr>events = sampleStore,
       editing = Some (sampleEvent ''2'' ''Football match'' ''Tuesday'' ''10:00'' ''11:00''),
       open' = True\<rparr>)) ! 1 = sampleEvent ''2'' ''Football match'' ''Tuesday'' ''10:00'' ''11:00''"
proof -
  let ?ed = "sampleEvent ''2'' ''Football match'' ''Tuesday'' ''10:00'' ''11:00''"
  let ?st = "\<lparr>events = sampleStore, editing = Some ?ed, open' = True\<rparr>"
  have a: "editing ?st = Some ?ed" by simp
  have b: "trim (title ?ed) \<noteq> []" by (simp add: sampleEvent_def trim_Football)
  have c: "start ?ed < end' ?ed" by (simp add: sampleEvent_def)
  have d: "\<exists>e\<in>set (events ?st). id' e = id' ?ed" by (simp add: sampleStore_def sampleEvent_def)
  have e: "length (events ?st) = 2" by (simp add: sampleStore_def)
  from saveEvent_replaces_in_place [OF a b c d]
  have len: "length (events (fst (saveEvent ?st))) = length (events ?st)"
    and nth: "\<And>i. i < length (events ?st) \<Longrightarrow> events (fst (saveEvent ?st)) ! i
                 = (if id' (events ?st ! i) = id' ?ed then ?ed else events ?st ! i)"
    by blast+
  have "events (fst (saveEvent ?st)) ! 0 = sampleEvent ''1'' ''Piano'' ''Monday'' ''09:00'' ''10:30''"
    using nth [of 0] by (simp add: sampleStore_def sampleEvent_def)
  moreover have "events (fst (saveEvent ?st)) ! 1 = ?ed"
    using nth [of 1] by (simp add: sampleStore_def sampleEvent_def)
  ultimately show ?thesis using len e by simp
qed

lemma those_Some: "those xs = Some ys \<Longrightarrow> xs = map Some ys"
  by (induction xs arbitrary: ys) (auto split: option.splits)

lemma rowObject_id: "rowObject cols u line ''id'' = Some u"
  by (simp add: rowObject_def Let_def)

lemma asEventItem_id: "asEventItem ob = Some e \<Longrightarrow> ob ''id'' = Some (id' e)"
  by (auto simp: asEventItem_def split: option.splits)

lemma importCSVWeb_Replaced_ids:
  assumes "fst (importCSVWeb uuid text') = Replaced evs"
  shows "map id' evs = map uuid [0..<length evs]"
proof -
  from assms obtain h rest where lines: "filter (\<lambda>l. l \<noteq> []) (splitLines text') = h # rest"
    by (auto simp: importCSVWeb_def split: list.splits)
  define cols where "cols = map (\<lambda>x. trim (stripQuotes x)) (split CHR '','' h)"
  define out where "out = map (\<lambda>(i, line). rowObject cols (uuid i) line) (zip [0..<length rest] rest)"
  from assms have "those (map asEventItem out) = Some evs"
    by (auto simp: importCSVWeb_def lines Let_def cols_def out_def split: option.splits)
  then have eq: "map asEventItem out = map Some evs" by (rule those_Some)
  then have "length out = length evs" by (rule map_eq_imp_length_eq)
  then have len: "length evs = length rest" by (simp add: out_def)
  show ?thesis
  proof (rule nth_equalityI)
    show "length (map id' evs) = length (map uuid [0..<length evs])" by simp
  next
    fix i assume "i < length (map id' evs)"
    then have i: "i < length rest" using len by simp
    have "asEventItem (out ! i) = Some (evs ! i)"
      using arg_cong [OF eq, of "\<lambda>xs. xs ! i"] i len by (simp add: out_def)
    then have "(out ! i) ''id'' = Some (id' (evs ! i))" by (rule asEventItem_id)
    moreover have "(out ! i) ''id'' = Some (uuid i)"
      using i by (simp add: out_def rowObject_id)
    ultimately show "map id' evs ! i = map uuid [0..<length evs] ! i"
      using i len by simp
  qed
qed

lemma distinct_map_uuid: "inj uuid \<Longrightarrow> distinct (map uuid [0..<n])"
  by (simp add: distinct_map inj_on_def inj_def)

lemma saveEvent_distinct:
  assumes "distinct (map id' (events st))"
  shows "distinct (map id' (events (fst (saveEvent st))))"
proof (cases "editing st")
  case None
  with assms show ?thesis by (simp add: saveEvent_def)
next
  case (Some ed)
  show ?thesis
  proof (cases "trim (title ed) \<noteq> [] \<and> start ed < end' ed")
    case True
    then have save: "events (fst (saveEvent st)) =
        (if \<exists>e\<in>set (events st). id' e = id' ed
         then map (\<lambda>e. if id' e = id' ed then ed else e) (events st)
         else events st @ [ed])"
      using saveEvent_valid [OF Some] by simp
    show ?thesis
    proof (cases "\<exists>e\<in>set (events st). id' e = id' ed")
      case True
      then have "map id' (events (fst (saveEvent st))) = map id' (events st)"
        by (simp add: save comp_def cong: map_cong)
      with assms show ?thesis by simp
    next
      case False
      then have "map id' (events (fst (saveEvent st))) = map id' (events st) @ [id' ed]"
        and "id' ed \<notin> set (map id' (events st))"
        by (auto simp: save)
      with assms show ?thesis by simp
    qed
  next
    case False
    with assms show ?thesis using saveEvent_invalid [OF Some] by simp
  qed
qed

lemma importCSVWeb_Untyped_ids:
  assumes "fst (importCSVWeb uuid text') = Untyped obs"
  shows "map (\<lambda>ob. ob ''id'') obs = map (\<lambda>i. Some (uuid i)) [0..<length obs]"
proof -
  from assms obtain h rest where lines: "filter (\<lambda>l. l \<noteq> []) (splitLines text') = h # rest"
    by (auto simp: importCSVWeb_def split: list.splits)
  define cols where "cols = map (\<lambda>x. trim (stripQuotes x)) (split CHR '','' h)"
  from assms have obs:
    "obs = map (\<lambda>(i, line). rowObject cols (uuid i) line) (zip [0..<length rest] rest)"
    by (auto simp: importCSVWeb_def lines Let_def cols_def split: option.splits)
  show ?thesis
    by (rule nth_equalityI) (simp_all add: obs rowObject_id)
qed

text \<open>
  C9: if the ids of the stored events are pairwise distinct, they are so after \<open>saveEvent\<close>,
  after \<open>deleteEvent\<close>, and after a CSV import, where the generator of identifiers never
  returns one identifier twice. That holds for the store of events an import leaves, and the
  objects of an import whose header lacks a required column have pairwise distinct ids too.
\<close>

theorem ids_stay_distinct:
  assumes "distinct (map id' (events st))" and "inj uuid"
  shows "distinct (map id' (events (fst (saveEvent st)))) \<and>
         distinct (map id' (events (deleteEvent i st))) \<and>
         (\<forall>evs. eventsAfterImport (events st) (fst (importCSVWeb uuid text')) = Some evs
            \<longrightarrow> distinct (map id' evs)) \<and>
         (\<forall>obs. fst (importCSVWeb uuid text') = Untyped obs
            \<longrightarrow> distinct (map (\<lambda>ob. ob ''id'') obs))"
proof (intro conjI allI impI)
  show "distinct (map id' (events (fst (saveEvent st))))"
    using assms(1) by (rule saveEvent_distinct)
  show "distinct (map id' (events (deleteEvent i st)))"
    using assms(1) by (simp add: deleteEvent_def distinct_map_filter)
next
  fix evs
  assume after: "eventsAfterImport (events st) (fst (importCSVWeb uuid text')) = Some evs"
  show "distinct (map id' evs)"
  proof (cases "fst (importCSVWeb uuid text')")
    case (Replaced new)
    with after have "new = evs" by (simp add: eventsAfterImport_def)
    with Replaced show ?thesis
      using importCSVWeb_Replaced_ids [of uuid text' evs] distinct_map_uuid [OF assms(2)]
      by simp
  next
    case (Untyped obs)
    with after show ?thesis by (simp add: eventsAfterImport_def)
  next
    case Aborted
    with after assms(1) show ?thesis by (simp add: eventsAfterImport_def)
  qed
next
  fix obs
  assume "fst (importCSVWeb uuid text') = Untyped obs"
  then have "map (\<lambda>ob. ob ''id'') obs = map (\<lambda>i. Some (uuid i)) [0..<length obs]"
    by (rule importCSVWeb_Untyped_ids)
  moreover have "distinct (map (\<lambda>i. Some (uuid i)) [0..<length obs])"
    using assms(2) by (simp add: distinct_map inj_on_def inj_def)
  ultimately show "distinct (map (\<lambda>ob. ob ''id'') obs)" by simp
qed

lemma inj_sampleUuid: "inj sampleUuid"
proof (rule injI)
  fix m n assume "sampleUuid m = sampleUuid n"
  then have "length (sampleUuid m) = length (sampleUuid n)" by simp
  then show "m = n" by (simp add: sampleUuid_def)
qed

lemma import_sampleCSV:
  "eventsAfterImport sampleStore (fst (importCSVWeb sampleUuid sampleCSV)) = Some
     [\<lparr>id' = ''uuid-'', title = ''Swim, then lunch'', day = ''Friday'', start = ''15:00'',
       end' = ''16:30'', category = ''Sport'', color = ''#22c55e'', notes' = None\<rparr>,
      \<lparr>id' = ''uuid-x'', title = ''Rest'', day = ''Sunday'', start = ''07:00'',
       end' = ''08:00'', category = ''Rest'', color = ''#ef4444'', notes' = None\<rparr>]"
  by code_simp

theorem ids_stay_distinct_witness:
  "distinct (map id' (events (fst (saveEvent \<lparr>events = sampleStore,
       editing = Some (sampleEvent ''3'' ''Piano lesson'' ''Monday'' ''10:00'' ''11:00''),
       open' = True\<rparr>)))) \<and>
   distinct (map id' (events (deleteEvent ''1'' \<lparr>events = sampleStore,
       editing = Some (sampleEvent ''3'' ''Piano lesson'' ''Monday'' ''10:00'' ''11:00''),
       open' = True\<rparr>))) \<and>
   (\<exists>evs. eventsAfterImport sampleStore (fst (importCSVWeb sampleUuid sampleCSV)) = Some evs \<and>
      length evs = 2 \<and> distinct (map id' evs))"
proof -
  let ?st = "\<lparr>events = sampleStore,
       editing = Some (sampleEvent ''3'' ''Piano lesson'' ''Monday'' ''10:00'' ''11:00''),
       open' = True\<rparr>"
  have d: "distinct (map id' (events ?st))"
    by (simp add: sampleStore_def sampleEvent_def)
  note inst = ids_stay_distinct [OF d inj_sampleUuid, of "''1''" sampleCSV]
  obtain evs where evs:
    "eventsAfterImport (events ?st) (fst (importCSVWeb sampleUuid sampleCSV)) = Some evs"
    "length evs = 2"
    by (simp add: import_sampleCSV)
  with inst have "distinct (map id' evs)" by blast
  with evs inst show ?thesis by auto
qed

subsection \<open>Loading persisted settings\<close>

lemma getLS_never_raises: "\<exists>v. getLS readItem parse key fallback = Inr v"
  by (simp add: getLS_def split: sum.splits option.splits)

lemma getLS_stored:
  assumes "\<forall>v. parse [] \<noteq> Inr v" and "readItem key = Inr (Some raw)" and "parse raw = Inr v"
  shows "getLS readItem parse key fallback = Inr v"
proof -
  from assms(1,3) have "raw \<noteq> []" by auto
  with assms(2,3) show ?thesis by (simp add: getLS_def)
qed

lemma getLS_fallback:
  assumes "readItem key = Inr None \<or> (\<exists>err. readItem key = Inl err) \<or>
           (\<exists>raw err. readItem key = Inr (Some raw) \<and> parse raw = Inl err)"
  shows "getLS readItem parse key fallback = Inr fallback"
  using assms by (auto simp: getLS_def)

text \<open>
  After the writes of the first render every persisted key holds the text of its default.
\<close>

lemma firstRenderWrites_persisted:
  "firstRenderWrites stringify st ''kwp:title'' = Some (stringify (JStr ''Kids Weekly Planner''))"
  "firstRenderWrites stringify st ''kwp:bgColor'' = Some (stringify (JStr ''#f8fafc''))"
  "firstRenderWrites stringify st ''kwp:accent'' = Some (stringify (JStr defaultAccent))"
  "firstRenderWrites stringify st ''kwp:photo'' = Some (stringify JNull)"
  "firstRenderWrites stringify st ''kwp:events'' = Some (stringify (JArr []))"
  "firstRenderWrites stringify st ''kwp:dense'' = Some (stringify (JBool False))"
  by (simp_all add: firstRenderWrites_def persisted_def setLS_def setItem_def)

text \<open>
  So, with a \<open>JSON.parse\<close> that reads back what \<open>JSON.stringify\<close> writes for the defaults,
  start-up loads the stored title and the defaults of the other five settings, whatever the
  storage held for them.
\<close>

lemma hydrate_defaults:
  assumes "\<forall>(key, fallback)\<in>set persisted.
             parse (stringify fallback) = Inr fallback \<and> stringify fallback \<noteq> []"
  shows "hydrate parse stringify st =
           [getLS (getItem st) parse ''kwp:title'' (JStr ''Kids Weekly Planner''),
            Inr (JStr ''#f8fafc''), Inr (JStr defaultAccent), Inr JNull, Inr (JArr []),
            Inr (JBool False)]"
  using assms
  by (simp add: hydrate_def persisted_def getLS_def getItem_def firstRenderWrites_persisted)

text \<open>
  C8: at start-up the loader returns, for every persisted key, the stored parsed value when
  there is one. On a storage that holds the red accent and half-hour rows switched on, the
  source's start-up loads the stored title, but the default accent and half-hour rows switched
  off: the persistence effects of the first render have written the defaults over the stored
  texts before the loader reads them.
\<close>

theorem hydrate_overwritten_example:
  "hydrate sampleParse sampleStringify sampleStorage =
     [Inr (JStr ''Our week''), Inr (JStr ''#f8fafc''), Inr (JStr ''#2563eb''), Inr JNull,
      Inr (JArr []), Inr (JBool False)]"
  by code_simp

subsection \<open>CSV import\<close>

lemma assignColumns_Nil: "assignColumns [] items = Map.empty"
  by (simp add: assignColumns_def)

lemma assignColumns_snoc:
  "assignColumns (cs @ [c]) items =
     (if c = ''__proto__'' then assignColumns cs items
      else (assignColumns cs items)(c \<mapsto> itemOrEmpty items (length cs)))"
  by (simp add: assignColumns_def)

lemma dom_assignColumns: "dom (assignColumns cols items) = set cols - {''__proto__''}"
  by (induction cols rule: rev_induct) (auto simp: assignColumns_Nil assignColumns_snoc)

lemma assignColumns_nth:
  assumes "j < length cols" and "cols ! j \<noteq> ''__proto__''"
    and "cols ! j \<notin> set (drop (Suc j) cols)"
  shows "assignColumns cols items (cols ! j) = Some (itemOrEmpty items j)"
  using assms
proof (induction cols rule: rev_induct)
  case Nil
  then show ?case by simp
next
  case (snoc c cs)
  show ?case
  proof (cases "j < length cs")
    case True
    with snoc.prems have "cs ! j \<noteq> c" and "cs ! j \<notin> set (drop (Suc j) cs)"
      and "cs ! j \<noteq> ''__proto__''"
      by (auto simp: nth_append)
    with True snoc.IH show ?thesis
      by (simp add: assignColumns_snoc nth_append)
  next
    case False
    with snoc.prems have "j = length cs" by simp
    with snoc.prems show ?thesis by (simp add: assignColumns_snoc)
  qed
qed

lemma those_map_Some: "those (map Some ys) = Some ys"
  by (induction ys) simp_all

lemma rowObject_other:
  "name \<noteq> ''id'' \<Longrightarrow>
   rowObject cols u line name = assignColumns cols (map stripQuotes (matchItems line)) name"
  by (simp add: rowObject_def)

lemma asEventItem_Some:
  assumes "asEventItem ob = Some e"
  shows "ob ''id'' = Some (id' e) \<and> ob ''title'' = Some (title e) \<and> ob ''day'' = Some (day e) \<and>
         ob ''start'' = Some (start e) \<and> ob ''end'' = Some (end' e) \<and>
         ob ''category'' = Some (category e) \<and> ob ''color'' = Some (color e) \<and>
         ob ''notes'' = notes' e"
proof -
  obtain i t d s en c k where ob:
    "ob ''id'' = Some i" "ob ''title'' = Some t" "ob ''day'' = Some d" "ob ''start'' = Some s"
    "ob ''end'' = Some en" "ob ''category'' = Some c" "ob ''color'' = Some k"
    using assms unfolding asEventItem_def
    by (cases "ob ''id''"; cases "ob ''title''"; cases "ob ''day''"; cases "ob ''start''";
        cases "ob ''end''"; cases "ob ''category''"; cases "ob ''color''") simp_all
  with assms have "e = \<lparr>id' = i, title = t, day = d, start = s, end' = en, category = c,
      color = k, notes' = ob ''notes''\<rparr>"
    by (simp add: asEventItem_def)
  with ob show ?thesis by simp
qed

lemma getProp_header:
  "getProp e ''title'' = Some (title e)" "getProp e ''day'' = Some (day e)"
  "getProp e ''start'' = Some (start e)" "getProp e ''end'' = Some (end' e)"
  "getProp e ''category'' = Some (category e)" "getProp e ''color'' = Some (color e)"
  "getProp e ''notes'' = notes' e"
  by (simp_all add: getProp_def)

lemma asEventItem_getProp:
  assumes "asEventItem ob = Some e" and "name \<in> set header"
  shows "getProp e name = ob name"
proof -
  from assms(2) consider "name = ''title''" | "name = ''day''" | "name = ''start''"
    | "name = ''end''" | "name = ''category''" | "name = ''color''" | "name = ''notes''"
    unfolding header_def by fastforce
  then show ?thesis
    using asEventItem_Some [OF assms(1)] by cases (simp_all only: getProp_header)
qed

lemma asEventItem_defined:
  assumes "ob ''id'' \<noteq> None" "ob ''title'' \<noteq> None" "ob ''day'' \<noteq> None" "ob ''start'' \<noteq> None"
    "ob ''end'' \<noteq> None" "ob ''category'' \<noteq> None" "ob ''color'' \<noteq> None"
  shows "\<exists>e. asEventItem ob = Some e"
proof -
  from assms obtain i t d s e c k where
    "ob ''id'' = Some i" "ob ''title'' = Some t" "ob ''day'' = Some d" "ob ''start'' = Some s"
    "ob ''end'' = Some e" "ob ''category'' = Some c" "ob ''color'' = Some k"
    by blast
  then show ?thesis by (simp add: asEventItem_def)
qed

lemma rowObject_defined:
  assumes "name \<in> set cols" and "name \<noteq> ''__proto__''"
  shows "rowObject cols u line name \<noteq> None"
proof -
  have "dom (rowObject cols u line) = insert ''id'' (set cols - {''__proto__''})"
    by (simp add: rowObject_def dom_assignColumns)
  with assms have "name \<in> dom (rowObject cols u line)" by simp
  then show ?thesis by blast
qed

lemma rowObject_typed:
  assumes "{''title'', ''day'', ''start'', ''end'', ''category'', ''color''} \<subseteq> set cols"
  shows "\<exists>e. asEventItem (rowObject cols u line) = Some e"
proof (rule asEventItem_defined)
  show "rowObject cols u line ''id'' \<noteq> None" by (simp add: rowObject_id)
  show "rowObject cols u line ''title'' \<noteq> None" using assms by (intro rowObject_defined) simp_all
  show "rowObject cols u line ''day'' \<noteq> None" using assms by (intro rowObject_defined) simp_all
  show "rowObject cols u line ''start'' \<noteq> None" using assms by (intro rowObject_defined) simp_all
  show "rowObject cols u line ''end'' \<noteq> None" using assms by (intro rowObject_defined) simp_all
  show "rowObject cols u line ''category'' \<noteq> None" using assms by (intro rowObject_defined) simp_all
  show "rowObject cols u line ''color'' \<noteq> None" using assms by (intro rowObject_defined) simp_all
qed

text \<open>The import when every row object is an event.\<close>

lemma importCSVWeb_typed:
  assumes lines: "filter (\<lambda>l. l \<noteq> []) (splitLines text') = h # rest"
    and cols: "cols = map (\<lambda>x. trim (stripQuotes x)) (split CHR '','' h)"
    and rows: "\<And>i. i < length rest \<Longrightarrow> asEventItem (rowObject cols (uuid i) (rest ! i)) = Some (f i)"
  shows "importCSVWeb uuid text' =
           (Replaced (map f [0..<length rest]), Alert ''Imported'' ''Imported events from CSV'')"
proof -
  define out where
    "out = map (\<lambda>(i, line). rowObject cols (uuid i) line) (zip [0..<length rest] rest)"
  have "map asEventItem out = map Some (map f [0..<length rest])"
    by (rule nth_equalityI) (simp_all add: out_def rows)
  then have "those (map asEventItem out) = Some (map f [0..<length rest])"
    by (simp only: those_map_Some)
  then show ?thesis
    by (simp add: importCSVWeb_def lines Let_def cols out_def)
qed

text \<open>
  What an import does whenever the header names the six required fields of an event: it
  replaces the store by one event for each non-empty line after the header, in order, the
  \<open>i\<close>-th with the \<open>i\<close>-th generated identifier; with a generator that never repeats an
  identifier and never returns one of the store's, the new ids are pairwise distinct and none
  is an id of the previous store; and a field holds the item that the tokenizer found at the
  position of the last header column with the field's name.
\<close>

lemma importCSVWeb_rows:
  assumes lines: "filter (\<lambda>l. l \<noteq> []) (splitLines text') = h # rest"
    and cols: "cols = map (\<lambda>x. trim (stripQuotes x)) (split CHR '','' h)"
    and typed: "{''title'', ''day'', ''start'', ''end'', ''category'', ''color''} \<subseteq> set cols"
    and fresh: "inj uuid" "\<forall>i. uuid i \<notin> id' ` set prev"
  shows "\<exists>evs.
           importCSVWeb uuid text' = (Replaced evs, Alert ''Imported'' ''Imported events from CSV'') \<and>
           eventsAfterImport prev (fst (importCSVWeb uuid text')) = Some evs \<and>
           length evs = length rest \<and>
           map id' evs = map uuid [0..<length rest] \<and>
           distinct (map id' evs) \<and>
           id' ` set evs \<inter> id' ` set prev = {} \<and>
           set evs \<inter> set prev = {} \<and>
           (\<forall>i<length rest. \<forall>j<length cols.
              cols ! j \<in> set header \<and> cols ! j \<notin> set (drop (Suc j) cols) \<longrightarrow>
              getProp (evs ! i) (cols ! j)
                = Some (itemOrEmpty (map stripQuotes (matchItems (rest ! i))) j))"
proof -
  define f where "f i = the (asEventItem (rowObject cols (uuid i) (rest ! i)))" for i
  define evs where "evs = map f [0..<length rest]"
  have row: "asEventItem (rowObject cols (uuid i) (rest ! i)) = Some (f i)" for i
    using rowObject_typed [OF typed, of "uuid i" "rest ! i"] by (auto simp: f_def)
  have imp: "importCSVWeb uuid text' =
      (Replaced evs, Alert ''Imported'' ''Imported events from CSV'')"
    unfolding evs_def using lines cols row by (rule importCSVWeb_typed)
  have len: "length evs = length rest" by (simp add: evs_def)
  have id_f: "id' (f i) = uuid i" for i
    using asEventItem_id [OF row [of i]] by (simp add: rowObject_id)
  have ids: "map id' evs = map uuid [0..<length rest]"
    by (simp add: evs_def id_f)
  have dist: "distinct (map id' evs)"
    using fresh(1) by (simp add: ids distinct_map inj_on_def inj_def)
  have disj: "id' ` set evs \<inter> id' ` set prev = {}"
  proof -
    have "id' ` set evs = set (map id' evs)" by simp
    also have "\<dots> \<subseteq> range uuid" by (auto simp: ids)
    finally have "id' ` set evs \<subseteq> range uuid" .
    moreover have "range uuid \<inter> id' ` set prev = {}" using fresh(2) by blast
    ultimately show ?thesis by blast
  qed
  then have disj': "set evs \<inter> set prev = {}" by auto
  have byname: "getProp (evs ! i) (cols ! j)
      = Some (itemOrEmpty (map stripQuotes (matchItems (rest ! i))) j)"
    if i: "i < length rest" and j: "j < length cols"
      and hd: "cols ! j \<in> set header" and last: "cols ! j \<notin> set (drop (Suc j) cols)" for i j
  proof -
    from hd have ne: "cols ! j \<noteq> ''id''" "cols ! j \<noteq> ''__proto__''"
      by (auto simp: header_def)
    have "getProp (evs ! i) (cols ! j) = rowObject cols (uuid i) (rest ! i) (cols ! j)"
      using asEventItem_getProp [OF row [of i] hd] i by (simp add: evs_def)
    also have "\<dots> = assignColumns cols (map stripQuotes (matchItems (rest ! i))) (cols ! j)"
      using ne(1) by (rule rowObject_other)
    also have "\<dots> = Some (itemOrEmpty (map stripQuotes (matchItems (rest ! i))) j)"
      using j ne(2) last by (rule assignColumns_nth)
    finally show ?thesis .
  qed
  have "eventsAfterImport prev (fst (importCSVWeb uuid text')) = Some evs"
    by (simp add: imp eventsAfterImport_def)
  with imp len ids dist disj disj' byname show ?thesis by blast
qed

lemma sampleCSV_lines:
  "filter (\<lambda>l. l \<noteq> []) (splitLines sampleCSV) =
     ''day,title,start,end,color,category''
     # [''Friday,'' @ [dquote] @ ''Swim, then lunch'' @ [dquote] @ '',15:00,16:30,#22c55e,Sport'',
        ''Sunday,Rest,07:00,08:00,#ef4444,Rest'']"
  by code_simp

lemma sampleCSV_cols:
  "[''day'', ''title'', ''start'', ''end'', ''color'', ''category'']
     = map (\<lambda>x. trim (stripQuotes x)) (split CHR '','' ''day,title,start,end,color,category'')"
  by code_simp

lemma sampleCSV_title:
  "itemOrEmpty (map stripQuotes (matchItems
     (''Friday,'' @ [dquote] @ ''Swim, then lunch'' @ [dquote] @ '',15:00,16:30,#22c55e,Sport''))) 1
   = ''Swim, then lunch''"
  by code_simp

lemma importCSVWeb_rows_sample:
  "\<exists>evs. eventsAfterImport sampleWeek (fst (importCSVWeb sampleUuid sampleCSV)) = Some evs \<and>
      length sampleWeek = 5 \<and> length evs = 2 \<and>
      id' ` set evs \<inter> id' ` set sampleWeek = {} \<and> set evs \<inter> set sampleWeek = {} \<and>
      getProp (evs ! 0) ''title'' = Some ''Swim, then lunch''"
proof -
  let ?cols = "[''day'', ''title'', ''start'', ''end'', ''color'', ''category'']"
  let ?r1 = "''Friday,'' @ [dquote] @ ''Swim, then lunch'' @ [dquote] @ '',15:00,16:30,#22c55e,Sport''"
  have typed: "{''title'', ''day'', ''start'', ''end'', ''category'', ''color''} \<subseteq> set ?cols"
    by simp
  have fresh: "\<forall>i. sampleUuid i \<notin> id' ` set sampleWeek"
    by (simp add: sampleUuid_def sampleWeek_def sampleEvent_def)
  let ?r2 = "''Sunday,Rest,07:00,08:00,#ef4444,Rest''"
  from importCSVWeb_rows [OF sampleCSV_lines sampleCSV_cols typed inj_sampleUuid fresh]
  obtain evs where after:
    "eventsAfterImport sampleWeek (fst (importCSVWeb sampleUuid sampleCSV)) = Some evs"
    and len: "length evs = length [?r1, ?r2]"
    and ids: "id' ` set evs \<inter> id' ` set sampleWeek = {}"
    and none: "set evs \<inter> set sampleWeek = {}"
    and byname: "\<forall>i<length [?r1, ?r2]. \<forall>j<length ?cols.
       ?cols ! j \<in> set header \<and> ?cols ! j \<notin> set (drop (Suc j) ?cols) \<longrightarrow>
       getProp (evs ! i) (?cols ! j)
         = Some (itemOrEmpty (map stripQuotes (matchItems ([?r1, ?r2] ! i))) j)"
    by blast
  have "(0::nat) < length [?r1, ?r2]" and "(1::nat) < length ?cols" by simp_all
  with byname have "?cols ! 1 \<in> set header \<and> ?cols ! 1 \<notin> set (drop (Suc 1) ?cols) \<longrightarrow>
       getProp (evs ! 0) (?cols ! 1)
         = Some (itemOrEmpty (map stripQuotes (matchItems ([?r1, ?r2] ! 0))) 1)"
    by blast
  moreover have "?cols ! 1 = ''title''" and "[?r1, ?r2] ! 0 = ?r1" by simp_all
  moreover have "''title'' \<in> set header" by (simp add: header_def)
  moreover have "''title'' \<notin> set (drop (Suc 1) ?cols)" by simp
  ultimately have "getProp (evs ! 0) ''title'' = Some ''Swim, then lunch''"
    by (simp only: sampleCSV_title simp_thms)
  moreover have "length sampleWeek = 5" by (simp add: sampleWeek_def)
  moreover from len have "length evs = 2" by simp
  ultimately show ?thesis using after ids none by blast
qed

text \<open>
  C4: an import holds, for every row of the file, one event whose fields are the cells of the
  row under the header's names. On a file whose second row has an empty category, imported
  over a store of five events, the source gives two events with new ids, and the second has the
  colour as its category, the notes as its colour and no notes: the tokenizer finds no item in
  an empty cell, and the later cells move one column to the left.
\<close>

theorem importCSVWeb_empty_cell_example:
  "eventsAfterImport sampleWeek (fst (importCSVWeb sampleUuid sampleEmptyCell)) =
     Some
      [\<lparr>id' = ''uuid-'', title = ''Piano'', day = ''Monday'', start = ''09:00'', end' = ''10:00'',
        category = ''Music'', color = ''#2563eb'', notes' = Some ''bring notes''\<rparr>,
       \<lparr>id' = ''uuid-x'', title = ''Walk'', day = ''Tuesday'', start = ''09:00'', end' = ''10:00'',
        category = ''#22c55e'', color = ''with Grandpa'', notes' = Some []\<rparr>]"
  by code_simp

subsection \<open>CSV export followed by import\<close>

lemma splitLines_no_LF: "LF \<notin> set l \<Longrightarrow> splitLines l = [l]"
  by (induction l rule: splitLines.induct) auto

lemma splitLines_LF: "splitLines (LF # r) = [] # splitLines r"
  by (cases r) simp_all

lemma splitLines_append_LF:
  "LF \<notin> set l \<Longrightarrow> l = [] \<or> last l \<noteq> CR \<Longrightarrow> splitLines (l @ LF # r) = l # splitLines r"
proof (induction l rule: splitLines.induct)
  case 1
  then show ?case by (simp add: splitLines_LF)
next
  case (2 c)
  then show ?case by (auto simp: splitLines_LF)
next
  case (3 c d cs)
  then show ?case by auto
qed

lemma splitLines_join:
  assumes "ls \<noteq> []" and "\<forall>l\<in>set ls. LF \<notin> set l \<and> (l = [] \<or> last l \<noteq> CR)"
  shows "splitLines (join [LF] ls) = ls"
  using assms
proof (induction "[LF]" ls rule: join.induct)
  case 1
  then show ?case by simp
next
  case (2 x)
  then show ?case by (simp add: splitLines_no_LF)
next
  case (3 x y ys)
  then show ?case by (simp add: splitLines_append_LF)
qed

lemma set_join: "set (join sep xs) \<subseteq> set sep \<union> \<Union> (set ` set xs)"
  by (induction sep xs rule: join.induct) auto

lemma doubleQuotes_plain: "dquote \<notin> set v \<Longrightarrow> doubleQuotes v = v"
  by (induction v) (auto simp: doubleQuotes_def)

lemma matchItems_quoted:
  assumes "dquote \<notin> set v"
  shows "matchItems (dquote # v @ dquote # r) = (dquote # v @ [dquote]) # matchItems r"
proof -
  from assms have v: "\<And>x. x \<in> set v \<Longrightarrow> x \<noteq> dquote" by auto
  have "takeWhile (\<lambda>x. x \<noteq> dquote) (v @ dquote # r) = v"
    using v by (simp add: takeWhile_append2)
  moreover have "dropWhile (\<lambda>x. x \<noteq> dquote) (v @ dquote # r) = dquote # r"
    using v by (simp add: dropWhile_append2)
  ultimately show ?thesis by simp
qed

lemma matchItems_comma: "matchItems (CHR '','' # r) = matchItems r"
  by (simp add: dquote_def)

lemma matchItems_quoteField:
  assumes "dquote \<notin> set v"
  shows "matchItems (quoteField v) = [quoteField v]"
    and "matchItems (quoteField v @ CHR '','' # r) = quoteField v # matchItems r"
  using assms matchItems_quoted [of v "[]"] matchItems_quoted [of v "CHR '','' # r"]
  by (simp_all add: quoteField_def doubleQuotes_plain matchItems_comma
      del: matchItems.simps(2))

lemma matchItems_csvLine:
  assumes "\<forall>v\<in>set r. dquote \<notin> set v"
  shows "matchItems (csvLine r) = map quoteField r"
  using assms unfolding csvLine_def
proof (induction r)
  case Nil
  then show ?case by simp
next
  case (Cons v r)
  then show ?case
    by (cases r) (simp_all add: matchItems_quoteField del: matchItems.simps(2))
qed

lemma stripQuotes_quoteField: "dquote \<notin> set v \<Longrightarrow> stripQuotes (quoteField v) = v"
  by (auto simp: stripQuotes_def quoteField_def doubleQuotes_plain filter_id_conv)

lemma items_csvLine:
  assumes "\<forall>v\<in>set r. dquote \<notin> set v"
  shows "map stripQuotes (matchItems (csvLine r)) = r"
  using assms by (simp add: matchItems_csvLine stripQuotes_quoteField map_idI)

lemma exportRow_fields:
  "exportRow e = [title e, day e, start e, end' e, category e, color e, orEmpty (notes' e)]"
  by (simp add: exportRow_def header_def getProp_header orEmpty_def)

lemma header_line: "join '','' header = ''title,day,start,end,category,color,notes''"
  by (simp add: header_def)

lemma header_cols: "map (\<lambda>x. trim (stripQuotes x)) (split CHR '','' (join '','' header)) = header"
  by code_simp

lemma set_doubleQuotes: "set (doubleQuotes v) \<subseteq> insert dquote (set v)"
  by (auto simp: doubleQuotes_def split: if_splits)

lemma set_quoteField: "set (quoteField v) \<subseteq> insert dquote (set v)"
  using set_doubleQuotes [of v] by (auto simp: quoteField_def)

lemma csvLine_no_LF:
  assumes "\<forall>v\<in>set r. LF \<notin> set v"
  shows "LF \<notin> set (csvLine r)"
proof
  assume "LF \<in> set (csvLine r)"
  with set_join [of "'',''" "map quoteField r"]
  have "LF \<in> set '','' \<or> (\<exists>v\<in>set r. LF \<in> set (quoteField v))"
    by (auto simp: csvLine_def)
  then obtain v where "v \<in> set r" and "LF \<in> set (quoteField v)"
    by (auto simp: LF_def)
  with set_quoteField [of v] have "LF = dquote \<or> LF \<in> set v" by auto
  with assms \<open>v \<in> set r\<close> show False by (auto simp: LF_def dquote_def)
qed

lemma join_last:
  assumes "xs \<noteq> []" and "\<forall>x\<in>set xs. x \<noteq> [] \<and> last x = c"
  shows "join sep xs \<noteq> [] \<and> last (join sep xs) = c"
  using assms by (induction sep xs rule: join.induct) auto

lemma csvLine_last:
  assumes "r \<noteq> []"
  shows "csvLine r \<noteq> [] \<and> last (csvLine r) = dquote"
  unfolding csvLine_def
  using assms by (intro join_last) (auto simp: quoteField_def)

lemma export_lines:
  assumes "\<forall>e\<in>set evs. \<forall>v\<in>set (exportRow e). LF \<notin> set v"
  shows "filter (\<lambda>l. l \<noteq> []) (splitLines (exportCSV evs))
           = join '','' header # map (\<lambda>e. csvLine (exportRow e)) evs"
proof -
  let ?ls = "join '','' header # map (\<lambda>e. csvLine (exportRow e)) evs"
  have row: "LF \<notin> set (csvLine (exportRow e)) \<and> csvLine (exportRow e) \<noteq> []
      \<and> last (csvLine (exportRow e)) \<noteq> CR" if "e \<in> set evs" for e
    using that assms csvLine_no_LF [of "exportRow e"] csvLine_last [of "exportRow e"]
    by (simp add: exportRow_fields CR_def dquote_def)
  have hdr: "LF \<notin> set (join '','' header) \<and> join '','' header \<noteq> []
      \<and> last (join '','' header) \<noteq> CR"
    by (simp add: header_line LF_def CR_def)
  have "splitLines (join [LF] ?ls) = ?ls"
    using row hdr by (intro splitLines_join) auto
  moreover have "filter (\<lambda>l. l \<noteq> []) ?ls = ?ls"
    using row hdr by (auto simp: filter_id_conv)
  ultimately show ?thesis
    by (simp add: exportCSV_def Let_def comp_def)
qed

lemma assignColumns_header:
  assumes "length r = 7"
  shows "assignColumns header r ''title'' = Some (r ! 0)"
    and "assignColumns header r ''day'' = Some (r ! 1)"
    and "assignColumns header r ''start'' = Some (r ! 2)"
    and "assignColumns header r ''end'' = Some (r ! 3)"
    and "assignColumns header r ''category'' = Some (r ! 4)"
    and "assignColumns header r ''color'' = Some (r ! 5)"
    and "assignColumns header r ''notes'' = Some (r ! 6)"
  using assms
    assignColumns_nth [of 0 header r] assignColumns_nth [of 1 header r]
    assignColumns_nth [of 2 header r] assignColumns_nth [of 3 header r]
    assignColumns_nth [of 4 header r] assignColumns_nth [of 5 header r]
    assignColumns_nth [of 6 header r]
  by (simp_all add: header_def itemOrEmpty_def)

lemma row_event:
  assumes "\<forall>v\<in>set (exportRow e). dquote \<notin> set v"
  shows "asEventItem (rowObject header u (csvLine (exportRow e)))
           = Some (e\<lparr>id' := u, notes' := Some (orEmpty (notes' e))\<rparr>)"
proof -
  let ?ob = "rowObject header u (csvLine (exportRow e))"
  have items: "map stripQuotes (matchItems (csvLine (exportRow e))) = exportRow e"
    using assms by (rule items_csvLine)
  have len: "length (exportRow e) = 7" by (simp add: exportRow_fields)
  have other: "?ob name = assignColumns header (exportRow e) name" if "name \<noteq> ''id''" for name
    using rowObject_other [OF that, of header u "csvLine (exportRow e)"] by (simp only: items)
  have ob: "?ob ''id'' = Some u" "?ob ''title'' = Some (title e)" "?ob ''day'' = Some (day e)"
    "?ob ''start'' = Some (start e)" "?ob ''end'' = Some (end' e)"
    "?ob ''category'' = Some (category e)" "?ob ''color'' = Some (color e)"
    "?ob ''notes'' = Some (orEmpty (notes' e))"
    by (simp_all add: rowObject_id other assignColumns_header [OF len])
       (simp_all add: exportRow_fields)
  have "asEventItem ?ob
      = Some \<lparr>id' = u, title = title e, day = day e, start = start e, end' = end' e,
          category = category e, color = color e, notes' = Some (orEmpty (notes' e))\<rparr>"
    by (simp only: asEventItem_def ob option.case prod.case)
  then show ?thesis by simp
qed

text \<open>
  C2, amended: for every list of events whose exported values (title, day, start, end,
  category, color, and notes or the empty string for missing notes) contain no double quote and
  no line feed, importing the exported text replaces the store by as many events, in the same
  order, with the same seven values each and with the generated identifiers.
\<close>

theorem export_import_roundtrip:
  assumes "\<forall>e\<in>set evs. \<forall>v\<in>set (exportRow e). dquote \<notin> set v \<and> LF \<notin> set v"
  shows "\<exists>imported.
           importCSVWeb uuid (exportCSV evs)
             = (Replaced imported, Alert ''Imported'' ''Imported events from CSV'') \<and>
           map exportRow imported = map exportRow evs \<and>
           map id' imported = map uuid [0..<length evs]"
proof -
  define f where "f i = (evs ! i)\<lparr>id' := uuid i, notes' := Some (orEmpty (notes' (evs ! i)))\<rparr>" for i
  let ?rest = "map (\<lambda>e. csvLine (exportRow e)) evs"
  have lines: "filter (\<lambda>l. l \<noteq> []) (splitLines (exportCSV evs)) = join '','' header # ?rest"
    using assms by (intro export_lines) blast
  have rows: "asEventItem (rowObject header (uuid i) (?rest ! i)) = Some (f i)"
    if "i < length ?rest" for i
  proof -
    from that have "evs ! i \<in> set evs" by simp
    with assms have "\<forall>v\<in>set (exportRow (evs ! i)). dquote \<notin> set v" by blast
    then show ?thesis using that by (simp add: row_event f_def)
  qed
  have "importCSVWeb uuid (exportCSV evs)
      = (Replaced (map f [0..<length ?rest]), Alert ''Imported'' ''Imported events from CSV'')"
    using lines header_cols [symmetric] rows by (rule importCSVWeb_typed)
  moreover have "map exportRow (map f [0..<length ?rest]) = map exportRow evs"
    by (rule nth_equalityI) (simp_all add: f_def exportRow_fields orEmpty_def)
  moreover have "map id' (map f [0..<length ?rest]) = map uuid [0..<length evs]"
    by (simp add: f_def)
  ultimately show ?thesis by blast
qed

theorem export_import_roundtrip_witness:
  "\<exists>imported.
     eventsAfterImport [] (fst (importCSVWeb sampleUuid (exportCSV sampleStore))) = Some imported \<and>
     map exportRow imported = map exportRow sampleStore \<and>
     map id' imported = [''uuid-'', ''uuid-x'']"
proof -
  have plain: "\<forall>e\<in>set sampleStore. \<forall>v\<in>set (exportRow e). dquote \<notin> set v \<and> LF \<notin> set v"
    by (simp add: sampleStore_def sampleEvent_def exportRow_fields orEmpty_def defaultAccent_def
        dquote_def LF_def)
  from export_import_roundtrip [OF plain, of sampleUuid]
  obtain imported where
    imp: "importCSVWeb sampleUuid (exportCSV sampleStore)
       = (Replaced imported, Alert ''Imported'' ''Imported events from CSV'')"
    and rows: "map exportRow imported = map exportRow sampleStore"
    and ids: "map id' imported = map sampleUuid [0..<length sampleStore]"
    by blast
  have "map sampleUuid [0..<length sampleStore] = [''uuid-'', ''uuid-x'']"
    by code_simp
  with ids have ids': "map id' imported = [''uuid-'', ''uuid-x'']" by (simp only:)
  from imp
  have after: "eventsAfterImport [] (fst (importCSVWeb sampleUuid (exportCSV sampleStore)))
      = Some imported"
    by (simp add: eventsAfterImport_def)
  show ?thesis
  proof (intro exI conjI)
    show "eventsAfterImport [] (fst (importCSVWeb sampleUuid (exportCSV sampleStore)))
        = Some imported"
      by (fact after)
    show "map exportRow imported = map exportRow sampleStore" by (fact rows)
    show "map id' imported = [''uuid-'', ''uuid-x'']" by (fact ids')
  qed
qed

text \<open>
  C2 as stated fails on a store with one event whose notes have two lines: the import reads
  each line of the file as a row and returns two events, neither with the notes of the
  original.
\<close>

theorem export_import_multiline_counterexample:
  "eventsAfterImport [] (fst (importCSVWeb sampleUuid (exportCSV [sampleMultiline])))
     = Some
        [\<lparr>id' = ''uuid-'', title = ''Swimming'', day = ''Friday'', start = ''15:00'',
          end' = ''16:00'', category = ''School'', color = ''#2563eb'',
          notes' = Some ''bring towel''\<rparr>,
         \<lparr>id' = ''uuid-x'', title = ''and goggles'', day = [], start = [], end' = [],
          category = [], color = [], notes' = Some []\<rparr>] \<and>
   map exportRow
        [\<lparr>id' = ''uuid-'', title = ''Swimming'', day = ''Friday'', start = ''15:00'',
          end' = ''16:00'', category = ''School'', color = ''#2563eb'',
          notes' = Some ''bring towel''\<rparr>,
         \<lparr>id' = ''uuid-x'', title = ''and goggles'', day = [], start = [], end' = [],
          category = [], color = [], notes' = Some []\<rparr>]
     \<noteq> map exportRow [sampleMultiline]"
  by code_simp

text \<open>
  A double quote in a field: the export doubles it, the import takes the doubled quote for
  the end of one item and the start of the next, and every later field moves to another
  column.
\<close>

lemma export_import_quoted:
  "eventsAfterImport [] (fst (importCSVWeb sampleUuid (exportCSV [sampleQuoted])))
     = Some
        [\<lparr>id' = ''uuid-'', title = ''Read '', day = ''Momo'', start = [], end' = ''Friday'',
          category = ''15:00'', color = ''16:00'', notes' = Some ''School''\<rparr>]"
  by code_simp

end
